theory Spec2Isabelle
  imports Main "HOL-Library.Word"
begin

section \<open>The array struct of \<open>array.h\<close>\<close>

text \<open>
  The header \<open>src/include/array.h\<close> defines a growable array as a family of macros over a
  struct with the fields \<open>buf\<close>, \<open>capacity\<close>, \<open>size\<close>, \<open>min_capacity\<close> and \<open>error\<close>.
  Each macro is embedded as a function that takes the struct and returns the struct the macro
  leaves behind. The three counters are \<open>uint64_t\<close> and are modelled as \<open>64 word\<close>.
\<close>

datatype array_error = OK_ERROR | OUT_OF_MEM | OUT_OF_BOUNDS

text \<open>
  A value of type \<open>T*\<close>: the null pointer, or a heap block with the contents of its slots.
  The length of the list is the number of slots the block really has, which is not always
  the number the field \<open>capacity\<close> records.
\<close>

datatype 'a ptr = NULL | Block "'a list"

fun slots :: "'a ptr \<Rightarrow> 'a list" where
  "slots NULL = []"
| "slots (Block b) = b"

text \<open>The field \<open>size\<close> is named \<open>size_a\<close>, since \<open>size\<close> is a constant of HOL.\<close>

record 'a array_struct =
  buf :: "'a ptr"
  capacity :: "64 word"
  size_a :: "64 word"
  min_capacity :: "64 word"
  error :: array_error

section \<open>The allocator\<close>

text \<open>
  \<open>calloc\<close> and \<open>realloc\<close> belong to the C library, not to the header. Whether a call
  succeeds is decided outside the program, so every macro that allocates takes the outcome
  of its call as an argument: \<open>False\<close> or \<open>None\<close> when the allocator returns the null
  pointer, and for \<open>realloc\<close> otherwise the contents \<open>junk\<close> that the added slots happen
  to hold (\<open>realloc\<close> does not initialise them).

  No block is larger than \<open>PTRDIFF_MAX\<close> bytes, and an element has at least one byte, so no
  allocation of more than \<open>max_slots\<close> slots succeeds whatever the outcome argument says.
  The macros compute the byte count \<open>sizeof(T) * capacity\<close>; the model counts slots.
\<close>

definition max_slots :: nat where
  "max_slots = 2 ^ 63 - 1"

definition calloc :: "bool \<Rightarrow> 64 word \<Rightarrow> ('a::zero) ptr" where
  "calloc ok n = (if ok \<and> unat n \<le> max_slots then Block (replicate (unat n) 0) else NULL)"

definition realloc :: "(nat \<Rightarrow> 'a) option \<Rightarrow> 'a ptr \<Rightarrow> 64 word \<Rightarrow> 'a ptr" where
  "realloc r p n =
     (case r of
        None \<Rightarrow> NULL
      | Some junk \<Rightarrow>
          if max_slots < unat n then NULL
          else Block (map (\<lambda>i. if i < length (slots p) then slots p ! i else junk i)
                        [0..<unat n]))"

text \<open>
  Reading and writing \<open>p[i]\<close>. An access through the null pointer or outside the block is
  undefined behaviour in C; the model returns \<open>None\<close> there, and so does every macro that
  performs such an access.
\<close>

definition load :: "'a ptr \<Rightarrow> 64 word \<Rightarrow> 'a option" where
  "load p i =
     (case p of
        NULL \<Rightarrow> None
      | Block b \<Rightarrow> if unat i < length b then Some (b ! unat i) else None)"

definition store :: "'a ptr \<Rightarrow> 64 word \<Rightarrow> 'a \<Rightarrow> 'a ptr option" where
  "store p i v =
     (case p of
        NULL \<Rightarrow> None
      | Block b \<Rightarrow> if unat i < length b then Some (Block (b[unat i := v])) else None)"

section \<open>The macros\<close>

text \<open>\<open>array_init(T, array_struct, init_capacity)\<close>.\<close>

definition array_init :: "bool \<Rightarrow> ('a::zero) array_struct \<Rightarrow> 64 word \<Rightarrow> 'a array_struct" where
  "array_init ok a init_capacity =
     (let a1 = a\<lparr>buf := calloc ok init_capacity\<rparr>
      in if buf a1 \<noteq> NULL
         then a1\<lparr>size_a := 0, min_capacity := init_capacity,
                 capacity := init_capacity, error := OK_ERROR\<rparr>
         else a1\<lparr>error := OUT_OF_MEM\<rparr>)"

text \<open>The statement \<open>array_struct.buf[array_struct.size++] = val\<close>.\<close>

definition add_tail :: "'a array_struct \<Rightarrow> 'a \<Rightarrow> 'a array_struct option" where
  "add_tail a val =
     (case store (buf a) (size_a a) val of
        None \<Rightarrow> None
      | Some p \<Rightarrow> Some (a\<lparr>buf := p, size_a := size_a a + 1\<rparr>))"

text \<open>\<open>array_add(T, array_struct, val)\<close>.\<close>

definition array_add ::
  "(nat \<Rightarrow> 'a) option \<Rightarrow> 'a array_struct \<Rightarrow> 'a \<Rightarrow> 'a array_struct option" where
  "array_add r a val =
     (if error a = OK_ERROR then
        (if size_a a = capacity a then
           (let a1 = a\<lparr>capacity := capacity a * 2\<rparr>;
                temp = realloc r (buf a1) (capacity a1)
            in if temp = NULL then Some (a1\<lparr>error := OUT_OF_MEM\<rparr>)
               else add_tail (a1\<lparr>buf := temp\<rparr>) val)
         else add_tail a val)
      else Some a)"

text \<open>
  The macros paste their arguments into the body, so an argument is an expression that is
  evaluated wherever the body mentions it, on the struct as it is at that moment. In
  \<open>array_set\<close>, \<open>array_get\<close> and \<open>array_remove_index\<close> the parameter \<open>index\<close> is read
  only before the struct is changed, and there the argument is modelled by its value.
  \<open>array_add_index\<close> reads \<open>index\<close> in its bounds test, then increments \<open>size\<close>, and
  reads \<open>index\<close> again in the test of every round of its loop and in the final store
  \<open>buf[index] = val\<close>; its arguments \<open>index\<close> and \<open>val\<close> are therefore functions of the
  struct. A call with a constant index \<open>i\<close> has the argument \<open>\<lambda>_. i\<close>; the call
  \<open>array_add_index(T, a, array_size(a), v)\<close> has the argument \<open>array_size\<close>. The results
  are of type \<open>uint64_t\<close> and \<open>T\<close>, so the test \<open>0 <= index\<close> always holds. The
  arguments \<open>init_capacity\<close> of \<open>array_init\<close> and \<open>val\<close> of \<open>array_add\<close> and
  \<open>array_set\<close> are modelled by their values, which covers the argument expressions that
  do not read the struct they are applied to.
\<close>

text \<open>
  The loop \<open>for(uint64_t i = size - 1; index < i; --i) buf[i] = buf[i - 1]\<close> of
  \<open>array_add_index\<close>, started at \<open>i\<close>.
\<close>

function shift_right ::
  "'a array_struct \<Rightarrow> ('a array_struct \<Rightarrow> 64 word) \<Rightarrow> 64 word \<Rightarrow> 'a array_struct option" where
  "shift_right a index i =
     (if index a < i then
        (case load (buf a) (i - 1) of
           None \<Rightarrow> None
         | Some x \<Rightarrow>
             (case store (buf a) i x of
                None \<Rightarrow> None
              | Some p \<Rightarrow> shift_right (a\<lparr>buf := p\<rparr>) index (i - 1)))
      else Some a)"
  by pat_completeness auto
termination
proof (relation "measure (\<lambda>(a, index, i). unat i)")
  show "wf (measure (\<lambda>(a :: 'a array_struct, index :: 'a array_struct \<Rightarrow> 64 word,
                       i :: 64 word). unat i))"
    by simp
next
  fix a :: "'a array_struct" and index :: "'a array_struct \<Rightarrow> 64 word" and i :: "64 word"
    and x :: 'a and p :: "'a ptr"
  assume "index a < i"
  then have "i \<noteq> 0"
    by (auto simp: word_less_nat_alt)
  then have "unat (i - 1) < unat i"
    by (simp add: unat_minus_one unat_gt_0)
  then show "((a\<lparr>buf := p\<rparr>, index, i - 1), (a, index, i)) \<in> measure (\<lambda>(a, index, i). unat i)"
    by simp
qed

text \<open>
  \<open>array_add_index(T, array_struct, index, val)\<close>. The growth step comes first, whatever
  the index; a failed reallocation leaves the macro through \<open>break\<close>.
\<close>

definition array_add_index ::
  "(nat \<Rightarrow> 'a) option \<Rightarrow> 'a array_struct \<Rightarrow> ('a array_struct \<Rightarrow> 64 word)
     \<Rightarrow> ('a array_struct \<Rightarrow> 'a) \<Rightarrow> 'a array_struct option" where
  "array_add_index r a index val =
     (if error a = OK_ERROR then
        (let grown =
               (if size_a a = capacity a then
                  (let a1 = a\<lparr>capacity := capacity a * 2\<rparr>;
                       temp = realloc r (buf a1) (capacity a1)
                   in if temp = NULL then Inl (a1\<lparr>error := OUT_OF_MEM\<rparr>)
                      else Inr (a1\<lparr>buf := temp\<rparr>))
                else Inr a)
         in case grown of
              Inl failed \<Rightarrow> Some failed
            | Inr a2 \<Rightarrow>
                if 0 \<le> index a2 \<and> index a2 \<le> size_a a2 then
                  (let a3 = a2\<lparr>size_a := size_a a2 + 1\<rparr>
                   in case shift_right a3 index (size_a a3 - 1) of
                        None \<Rightarrow> None
                      | Some a4 \<Rightarrow>
                          (case store (buf a4) (index a4) (val a4) of
                             None \<Rightarrow> None
                           | Some p \<Rightarrow> Some (a4\<lparr>buf := p\<rparr>)))
                else Some (a2\<lparr>error := OUT_OF_BOUNDS\<rparr>))
      else Some a)"

text \<open>\<open>array_set(array_struct, index, val)\<close>.\<close>

definition array_set :: "'a array_struct \<Rightarrow> 64 word \<Rightarrow> 'a \<Rightarrow> 'a array_struct option" where
  "array_set a index val =
     (if error a = OK_ERROR then
        (if 0 \<le> index \<and> index < size_a a then
           (case store (buf a) index val of
              None \<Rightarrow> None
            | Some p \<Rightarrow> Some (a\<lparr>buf := p\<rparr>))
         else Some (a\<lparr>error := OUT_OF_BOUNDS\<rparr>))
      else Some a)"

text \<open>
  \<open>array_get(array_struct, index, ret_val)\<close>. The macro assigns to the caller's variable
  \<open>ret_val\<close>; the function takes the value the variable holds and returns, with the
  struct, the value it holds afterwards.
\<close>

definition array_get :: "'a array_struct \<Rightarrow> 64 word \<Rightarrow> 'a \<Rightarrow> ('a array_struct \<times> 'a) option" where
  "array_get a index ret_val =
     (if error a = OK_ERROR then
        (if 0 \<le> index \<and> index < size_a a then
           (case load (buf a) index of
              None \<Rightarrow> None
            | Some x \<Rightarrow> Some (a, x))
         else Some (a\<lparr>error := OUT_OF_BOUNDS\<rparr>, ret_val))
      else Some (a, ret_val))"

text \<open>
  The statement shared by \<open>array_remove\<close> and \<open>array_remove_index\<close>: decrement \<open>size\<close>,
  and halve the capacity when the new size is half of it and it is not the minimum.
\<close>

definition remove_tail :: "(nat \<Rightarrow> 'a) option \<Rightarrow> 'a array_struct \<Rightarrow> 'a array_struct" where
  "remove_tail r a =
     (let a1 = a\<lparr>size_a := size_a a - 1\<rparr>
      in if size_a a1 = capacity a1 div 2 \<and> capacity a1 \<noteq> min_capacity a1 then
           (let a2 = a1\<lparr>capacity := capacity a1 div 2\<rparr>;
                temp = realloc r (buf a2) (capacity a2)
            in if temp = NULL then a2\<lparr>error := OUT_OF_MEM\<rparr>
               else a2\<lparr>buf := temp\<rparr>)
         else a1)"

text \<open>\<open>array_remove(T, array_struct)\<close>.\<close>

definition array_remove :: "(nat \<Rightarrow> 'a) option \<Rightarrow> 'a array_struct \<Rightarrow> 'a array_struct option" where
  "array_remove r a =
     (if error a = OK_ERROR then
        (if size_a a > 0 then Some (remove_tail r a)
         else Some (a\<lparr>error := OUT_OF_BOUNDS\<rparr>))
      else Some a)"

text \<open>
  The loop \<open>for(uint64_t i = index; i < size - 1; ++i) buf[i] = buf[i + 1]\<close> of
  \<open>array_remove_index\<close>, started at \<open>i\<close>; \<open>stop\<close> is \<open>size - 1\<close>.
\<close>

function shift_left :: "'a ptr \<Rightarrow> 64 word \<Rightarrow> 64 word \<Rightarrow> 'a ptr option" where
  "shift_left p i stop =
     (if i < stop then
        (case load p (i + 1) of
           None \<Rightarrow> None
         | Some x \<Rightarrow>
             (case store p i x of
                None \<Rightarrow> None
              | Some p' \<Rightarrow> shift_left p' (i + 1) stop))
      else Some p)"
  by pat_completeness auto
termination
proof (relation "measure (\<lambda>(p, i, stop). unat stop - unat i)")
  show "wf (measure (\<lambda>(p :: 'a ptr, i :: 64 word, stop :: 64 word). unat stop - unat i))"
    by simp
next
  fix p :: "'a ptr" and i stop :: "64 word" and x :: 'a and p' :: "'a ptr"
  assume less: "i < stop"
  have "unat stop < 2 ^ LENGTH(64)"
    by (rule unsigned_less)
  with less have "unat i + unat (1 :: 64 word) < 2 ^ LENGTH(64)"
    by (simp add: word_less_nat_alt)
  then have "unat (i + 1) = unat i + 1"
    by (simp add: unat_add_lem [THEN iffD1])
  with less show "((p', i + 1, stop), (p, i, stop)) \<in> measure (\<lambda>(p, i, stop). unat stop - unat i)"
    by (simp add: word_less_nat_alt)
qed

text \<open>\<open>array_remove_index(T, array_struct, index)\<close>.\<close>

definition array_remove_index ::
  "(nat \<Rightarrow> 'a) option \<Rightarrow> 'a array_struct \<Rightarrow> 64 word \<Rightarrow> 'a array_struct option" where
  "array_remove_index r a index =
     (if error a = OK_ERROR then
        (if size_a a > 0 \<and> 0 \<le> index \<and> index < size_a a then
           (case shift_left (buf a) index (size_a a - 1) of
              None \<Rightarrow> None
            | Some p \<Rightarrow> Some (remove_tail r (a\<lparr>buf := p\<rparr>)))
         else Some (a\<lparr>error := OUT_OF_BOUNDS\<rparr>))
      else Some a)"

text \<open>\<open>array_size(array_struct)\<close> and \<open>array_error(array_struct)\<close>.\<close>

definition array_size :: "'a array_struct \<Rightarrow> 64 word" where
  "array_size a = size_a a"

definition array_error :: "'a array_struct \<Rightarrow> array_error" where
  "array_error a = error a"

section \<open>Sequences of calls\<close>

text \<open>
  A caller's program is a list of macro calls whose arguments are constants. \<open>exec\<close>
  performs one call, given the outcome of the reallocation the call may make; \<open>run\<close>
  performs the calls in order and stops where one is undefined. \<open>Array_get\<close> carries the
  value of the caller's variable, which \<open>exec\<close> drops.
\<close>

datatype 'a call =
    Array_add 'a
  | Array_add_index "64 word" 'a
  | Array_set "64 word" 'a
  | Array_get "64 word" 'a
  | Array_remove
  | Array_remove_index "64 word"

fun exec :: "(nat \<Rightarrow> 'a) option \<Rightarrow> 'a array_struct \<Rightarrow> 'a call \<Rightarrow> 'a array_struct option" where
  "exec r a (Array_add val) = array_add r a val"
| "exec r a (Array_add_index index val) = array_add_index r a (\<lambda>_. index) (\<lambda>_. val)"
| "exec r a (Array_set index val) = array_set a index val"
| "exec r a (Array_get index ret_val) = map_option fst (array_get a index ret_val)"
| "exec r a Array_remove = array_remove r a"
| "exec r a (Array_remove_index index) = array_remove_index r a index"

fun run ::
  "'a array_struct \<Rightarrow> ((nat \<Rightarrow> 'a) option \<times> 'a call) list \<Rightarrow> 'a array_struct option" where
  "run a [] = Some a"
| "run a ((r, c) # cs) = (case exec r a c of None \<Rightarrow> None | Some a' \<Rightarrow> run a' cs)"

text \<open>
  The number of slots a call asks \<open>realloc\<close> for, if it reaches a call of \<open>realloc\<close>:
  \<open>array_add\<close> and \<open>array_add_index\<close> ask for the doubled capacity when they find the
  array usable and full; \<open>array_remove\<close> and \<open>array_remove_index\<close> ask for the halved
  capacity when they find it usable, pass their test of the size and the index, and the
  decremented size is half the capacity and the capacity is not the minimum. The other
  calls never allocate.
\<close>

fun realloc_request :: "'a array_struct \<Rightarrow> 'a call \<Rightarrow> 64 word option" where
  "realloc_request a (Array_add val) =
     (if error a = OK_ERROR \<and> size_a a = capacity a then Some (capacity a * 2) else None)"
| "realloc_request a (Array_add_index index val) =
     (if error a = OK_ERROR \<and> size_a a = capacity a then Some (capacity a * 2) else None)"
| "realloc_request a (Array_set index val) = None"
| "realloc_request a (Array_get index ret_val) = None"
| "realloc_request a Array_remove =
     (if error a = OK_ERROR \<and> size_a a > 0
         \<and> size_a a - 1 = capacity a div 2 \<and> capacity a \<noteq> min_capacity a
      then Some (capacity a div 2) else None)"
| "realloc_request a (Array_remove_index index) =
     (if error a = OK_ERROR \<and> size_a a > 0 \<and> 0 \<le> index \<and> index < size_a a
         \<and> size_a a - 1 = capacity a div 2 \<and> capacity a \<noteq> min_capacity a
      then Some (capacity a div 2) else None)"

text \<open>
  The allocator grants what the call asks for: with the outcome \<open>r\<close>, the call of
  \<open>realloc\<close> that the call makes, if any, does not return the null pointer. (Whether
  \<open>realloc\<close> returns the null pointer does not depend on the block it is given.)
\<close>

definition granted :: "(nat \<Rightarrow> 'a) option \<Rightarrow> 'a array_struct \<Rightarrow> 'a call \<Rightarrow> bool" where
  "granted r a c =
     (case realloc_request a c of
        None \<Rightarrow> True
      | Some n \<Rightarrow> realloc r (buf a) n \<noteq> NULL)"

text \<open>Every reallocation of a run is granted.\<close>

fun all_granted ::
  "'a array_struct \<Rightarrow> ((nat \<Rightarrow> 'a) option \<times> 'a call) list \<Rightarrow> bool" where
  "all_granted a [] = True"
| "all_granted a ((r, c) # cs) =
     (granted r a c \<and> (case exec r a c of None \<Rightarrow> True | Some a' \<Rightarrow> all_granted a' cs))"

section \<open>Invariants\<close>



text \<open>
  The array is usable and holds exactly the elements \<open>xs\<close>, in order, in the first slots
  of a block of \<open>capacity\<close> slots.
\<close>

definition holds :: "'a array_struct \<Rightarrow> 'a list \<Rightarrow> bool" where
  "holds a xs \<longleftrightarrow>
     error a = OK_ERROR \<and> unat (size_a a) = length xs \<and> length xs \<le> unat (capacity a)
     \<and> 0 < unat (capacity a) \<and> unat (capacity a) \<le> max_slots
     \<and> (\<exists>b. buf a = Block b \<and> length b = unat (capacity a) \<and> take (length xs) b = xs)"

text \<open>
  The state of an array with minimum capacity 1 while elements are removed from the tail:
  usable, the capacity a power of two, and more than half of it in use unless it is 1.
\<close>

definition tight :: "'a array_struct \<Rightarrow> bool" where
  "tight a \<longleftrightarrow>
     error a = OK_ERROR \<and> min_capacity a = 1 \<and> unat (size_a a) \<le> unat (capacity a)
     \<and> (\<exists>j. unat (capacity a) = 2 ^ j)
     \<and> (capacity a = 1 \<or> unat (capacity a) div 2 < unat (size_a a))"

section \<open>Example states\<close>

text \<open>A full array of two elements with minimum capacity 2.\<close>

definition full_pair :: "nat array_struct" where
  "full_pair = \<lparr>buf = Block [4, 6], capacity = 2, size_a = 2, min_capacity = 2,
                 error = OK_ERROR\<rparr>"

text \<open>The same array after an operation has reported an index out of bounds.\<close>

definition failed_pair :: "nat array_struct" where
  "failed_pair = full_pair\<lparr>error := OUT_OF_BOUNDS\<rparr>"

text \<open>An empty array with room for two elements.\<close>

definition empty_pair :: "nat array_struct" where
  "empty_pair = \<lparr>buf = Block [0, 0], capacity = 2, size_a = 0, min_capacity = 2,
                  error = OK_ERROR\<rparr>"

text \<open>Three elements in four slots, with minimum capacity 2: the next removal shrinks.\<close>

definition three_of_four :: "nat array_struct" where
  "three_of_four = \<lparr>buf = Block [4, 6, 8, 0], capacity = 4, size_a = 3, min_capacity = 2,
                     error = OK_ERROR\<rparr>"

text \<open>A full array of four elements with minimum capacity 1.\<close>

definition full_four :: "nat array_struct" where
  "full_four = \<lparr>buf = Block [1, 2, 3, 4], capacity = 4, size_a = 4, min_capacity = 1,
                 error = OK_ERROR\<rparr>"


section \<open>Basic facts\<close>

declare shift_right.simps [simp del] shift_left.simps [simp del]

lemma realloc_NULL_iff: "realloc r p n = NULL \<longleftrightarrow> r = None \<or> max_slots < unat n"
  by (simp add: realloc_def split: option.splits)

lemma shift_right_done: "\<not> index a < i \<Longrightarrow> shift_right a index i = Some a"
  by (simp add: shift_right.simps [of a index i])

lemma shift_right_fields:
  "shift_right a index i = Some a' \<Longrightarrow> a' = a\<lparr>buf := buf a'\<rparr>"
proof (induction a index i arbitrary: a' rule: shift_right.induct)
  case (1 a index i)
  show ?case
  proof (cases "index a < i")
    case False
    with "1.prems" show ?thesis
      by (simp add: shift_right.simps [of a index i])
  next
    case True
    with "1.prems" obtain x p where ld: "load (buf a) (i - 1) = Some x"
      and st: "store (buf a) i x = Some p"
      and rest: "shift_right (a\<lparr>buf := p\<rparr>) index (i - 1) = Some a'"
      by (auto simp: shift_right.simps [of a index i] split: option.splits)
    from "1.IH" [OF True ld st rest] have "a' = a\<lparr>buf := p\<rparr>\<lparr>buf := buf a'\<rparr>" .
    then show ?thesis by simp
  qed
qed

lemma shift_right_error: "shift_right a index i = Some a' \<Longrightarrow> error a' = error a"
  by (drule shift_right_fields) (erule ssubst, simp)

text \<open>The three ways through \<open>array_add_index\<close> on a usable array.\<close>

lemma array_add_index_cases:
  assumes "error a = OK_ERROR"
  shows "array_add_index r a index val =
     (if size_a a = capacity a \<and> realloc r (buf a) (capacity a * 2) = NULL
      then Some (a\<lparr>capacity := capacity a * 2, error := OUT_OF_MEM\<rparr>)
      else let a2 = (if size_a a = capacity a
                     then a\<lparr>capacity := capacity a * 2,
                            buf := realloc r (buf a) (capacity a * 2)\<rparr>
                     else a)
           in if index a2 \<le> size_a a2
              then (case shift_right (a2\<lparr>size_a := size_a a2 + 1\<rparr>) index (size_a a2) of
                      None \<Rightarrow> None
                    | Some a4 \<Rightarrow>
                        (case store (buf a4) (index a4) (val a4) of
                           None \<Rightarrow> None
                         | Some p \<Rightarrow> Some (a4\<lparr>buf := p\<rparr>)))
              else Some (a2\<lparr>error := OUT_OF_BOUNDS\<rparr>))"
  using assms by (simp add: array_add_index_def Let_def)

lemma realloc_grow:
  assumes "length (slots p) \<le> unat n" and "unat n \<le> max_slots"
  shows "realloc (Some junk) p n = Block (slots p @ map junk [length (slots p)..<unat n])"
proof -
  have "map (\<lambda>i. if i < length (slots p) then slots p ! i else junk i) [0..<unat n]
        = slots p @ map junk [length (slots p)..<unat n]"
    using assms(1) by (auto intro!: nth_equalityI simp: nth_append)
  with assms(2) show ?thesis by (simp add: realloc_def)
qed

lemma realloc_keeps:
  assumes "realloc r p n = Block b" and "j < length (slots p)" and "j < unat n"
  shows "b ! j = slots p ! j"
  using assms by (auto simp: realloc_def split: option.splits if_splits)

lemma realloc_shrink:
  assumes "unat n \<le> length (slots p)" and "unat n \<le> max_slots"
  shows "realloc (Some junk) p n = Block (take (unat n) (slots p))"
proof -
  have "map (\<lambda>i. if i < length (slots p) then slots p ! i else junk i) [0..<unat n]
        = take (unat n) (slots p)"
    using assms(1) by (auto intro!: nth_equalityI)
  with assms(2) show ?thesis by (simp add: realloc_def)
qed

text \<open>The equations that evaluate the macros on concrete structs.\<close>

lemmas eval_simps = array_init_def calloc_def max_slots_def array_add_def add_tail_def store_def
  load_def realloc_grow realloc_shrink Let_def upt_conv_Cons array_size_def array_error_def
  array_get_def array_remove_def remove_tail_def array_set_def word_less_nat_alt word_le_nat_alt

lemma error_remove_tail:
  "error a = OK_ERROR \<Longrightarrow> error (remove_tail r a) \<noteq> OUT_OF_BOUNDS"
  by (simp add: remove_tail_def Let_def)

lemma shift_left_Some:
  "unat stop < length b \<Longrightarrow> i \<le> stop \<Longrightarrow>
     \<exists>b'. shift_left (Block b) i stop = Some (Block b') \<and> length b' = length b"
proof (induction "Block b" i stop arbitrary: b rule: shift_left.induct)
  case (1 i stop)
  show ?case
  proof (cases "i < stop")
    case False
    then show ?thesis by (simp add: shift_left.simps [of _ i stop])
  next
    case True
    then have le: "i + 1 \<le> stop" by (rule inc_le)
    then have "unat (i + 1) < length b"
      using "1.prems"(1) by (simp add: word_le_nat_alt)
    then have ld: "load (Block b) (i + 1) = Some (b ! unat (i + 1))"
      by (simp add: load_def)
    have "unat i < length b"
      using True "1.prems"(1) by (simp add: word_less_nat_alt)
    then have st: "store (Block b) i (b ! unat (i + 1)) = Some (Block (b[unat i := b ! unat (i + 1)]))"
      by (simp add: store_def)
    from "1.hyps" [OF True ld st] "1.prems"(1) le
    obtain b' where "shift_left (Block (b[unat i := b ! unat (i + 1)])) (i + 1) stop = Some (Block b')"
      and "length b' = length b"
      by auto
    with True ld st show ?thesis
      by (simp add: shift_left.simps [of "Block b" i stop])
  qed
qed

section \<open>Failure of the growth reallocation in \<open>array_add\<close>\<close>

text \<open>
  Claim C1, as the code has it. When \<open>array_add\<close> finds the array full (\<open>error\<close> is
  \<open>OK_ERROR\<close> and \<open>size\<close> equals \<open>capacity\<close>) and the reallocation fails, the macro sets
  \<open>error\<close> to \<open>OUT_OF_MEM\<close> and leaves \<open>buf\<close>, \<open>size\<close> and \<open>min_capacity\<close> as they
  were, but \<open>capacity\<close> has already been doubled (modulo \<open>2^64\<close>) before the call of
  \<open>realloc\<close> and stays doubled.
\<close>

theorem array_add_growth_failure:
  assumes "error a = OK_ERROR" and "size_a a = capacity a"
    and "realloc r (buf a) (capacity a * 2) = NULL"
  shows "array_add r a val = Some (a\<lparr>capacity := capacity a * 2, error := OUT_OF_MEM\<rparr>)"
  using assms by (simp add: array_add_def Let_def)

theorem array_add_growth_failure_witness:
  "error full_pair = OK_ERROR \<and> size_a full_pair = capacity full_pair
   \<and> realloc None (buf full_pair) (capacity full_pair * 2) = NULL
   \<and> array_add None full_pair 8
       = Some \<lparr>buf = Block [4, 6], capacity = 4, size_a = 2, min_capacity = 2,
                error = OUT_OF_MEM\<rparr>"
  using array_add_growth_failure [of full_pair None 8]
  by (simp add: full_pair_def realloc_def)

text \<open>
  The claim as written says that the capacity equals its value before the call. On a full
  array of one element whose reallocation fails, the capacity is 2 afterwards, not 1.
\<close>

theorem array_add_growth_failure_counterexample:
  "array_add None
     \<lparr>buf = Block [7 :: nat], capacity = 1, size_a = 1, min_capacity = 1, error = OK_ERROR\<rparr> 9
   = Some \<lparr>buf = Block [7], capacity = 2, size_a = 1, min_capacity = 1, error = OUT_OF_MEM\<rparr>"
  by (simp add: array_add_def realloc_def Let_def)

section \<open>The sticky error flag\<close>

text \<open>
  Claim C5. In a state whose \<open>error\<close> is not \<open>OK_ERROR\<close>, each of \<open>array_add\<close>,
  \<open>array_add_index\<close> (whatever expressions its arguments are), \<open>array_set\<close>,
  \<open>array_remove\<close> and \<open>array_remove_index\<close> returns
  the struct as it was (size, capacity, minimum capacity, buffer and error flag), and so does
  \<open>array_get\<close>, which also leaves the caller's variable alone; \<open>array_size\<close> and
  \<open>array_error\<close> still read the two fields. So none of them turns the flag back to
  \<open>OK_ERROR\<close>.
\<close>

theorem sticky_error:
  assumes "error a \<noteq> OK_ERROR"
  shows "array_add r a val = Some a \<and> array_add_index r a index_e val_e = Some a
       \<and> array_set a index val = Some a \<and> array_get a index ret_val = Some (a, ret_val)
       \<and> array_remove r a = Some a \<and> array_remove_index r a index = Some a
       \<and> array_size a = size_a a \<and> array_error a = error a"
  using assms
  by (simp add: array_add_def array_add_index_def array_set_def array_get_def array_remove_def
      array_remove_index_def array_size_def array_error_def)

theorem sticky_error_witness:
  "error failed_pair \<noteq> OK_ERROR
   \<and> array_add (Some (\<lambda>i. 0)) failed_pair 8 = Some failed_pair
   \<and> array_add_index (Some (\<lambda>i. 0)) failed_pair array_size (\<lambda>_. 8) = Some failed_pair
   \<and> array_set failed_pair 1 8 = Some failed_pair
   \<and> array_get failed_pair 1 0 = Some (failed_pair, 0)
   \<and> array_remove (Some (\<lambda>i. 0)) failed_pair = Some failed_pair
   \<and> array_remove_index (Some (\<lambda>i. 0)) failed_pair 1 = Some failed_pair
   \<and> array_size failed_pair = 2 \<and> array_error failed_pair = OUT_OF_BOUNDS"
  using sticky_error [where a = failed_pair and r = "Some (\<lambda>i. 0)" and val = 8
      and index_e = array_size and val_e = "\<lambda>_. 8" and index = 1 and ret_val = 0]
  by (simp add: failed_pair_def full_pair_def)

section \<open>Insertion at the end\<close>

text \<open>
  With a copy of the size as its index argument, \<open>array_add_index\<close> leaves exactly the
  struct that \<open>array_add\<close> leaves, also when the growth reallocation fails.
\<close>

lemma insert_at_copied_size_is_append:
  "array_add_index r a (\<lambda>_. size_a a) (\<lambda>_. val) = array_add r a val"
  by (simp add: array_add_index_def array_add_def add_tail_def Let_def shift_right_done
      split: option.splits)

text \<open>
  Claim C8 says that insertion at the index \<open>size\<close> produces the state that appending
  produces. The macro does not: it pastes its index argument, so the call
  \<open>array_add_index(T, a, array_size(a), v)\<close> passes the bounds test with the old size,
  increments \<open>size\<close>, and then reads the index again as the new size. The loop does not run
  and \<open>buf[index] = val\<close> stores one slot too far. On the empty array of two slots the
  value 8 lands in slot 1 and slot 0 keeps its content, where \<open>array_add\<close> stores it in
  slot 0. On the array holding three elements in four slots the store is at slot 4, outside
  the block, where \<open>array_add\<close> stores at slot 3.
\<close>

theorem insert_at_array_size_misses:
  "array_add_index None empty_pair array_size (\<lambda>_. 8)
     = Some \<lparr>buf = Block [0, 8], capacity = 2, size_a = 1, min_capacity = 2,
              error = OK_ERROR\<rparr>
   \<and> array_add None empty_pair 8
     = Some \<lparr>buf = Block [8, 0], capacity = 2, size_a = 1, min_capacity = 2,
              error = OK_ERROR\<rparr>
   \<and> array_add_index None three_of_four array_size (\<lambda>_. 9) = None
   \<and> array_add None three_of_four 9
     = Some \<lparr>buf = Block [4, 6, 8, 9], capacity = 4, size_a = 4, min_capacity = 2,
              error = OK_ERROR\<rparr>"
  by (simp add: empty_pair_def three_of_four_def array_add_index_def array_add_def add_tail_def
      array_size_def store_def Let_def shift_right_done word_less_nat_alt)

section \<open>Failure of the allocation in \<open>array_init\<close>\<close>

text \<open>
  Claim C10, as the code has it. When the allocation of \<open>array_init\<close> fails, the macro
  writes two fields: \<open>buf\<close>, which receives the null pointer that \<open>calloc\<close> returned, and
  \<open>error\<close>, which becomes \<open>OUT_OF_MEM\<close>. The fields \<open>size\<close>, \<open>capacity\<close> and
  \<open>min_capacity\<close> are not written and keep the values they held before the call.
\<close>

theorem array_init_failure:
  assumes "calloc ok init_capacity = (NULL :: ('a::zero) ptr)"
  shows "array_init ok (a :: 'a array_struct) init_capacity
           = a\<lparr>buf := NULL, error := OUT_OF_MEM\<rparr>"
  using assms by (simp add: array_init_def Let_def)

theorem array_init_failure_witness:
  "calloc False 4 = (NULL :: nat ptr)
   \<and> array_init False full_pair 4
       = \<lparr>buf = NULL, capacity = 2, size_a = 2, min_capacity = 2, error = OUT_OF_MEM\<rparr>"
  using array_init_failure [of False 4 full_pair]
  by (simp add: full_pair_def calloc_def)

text \<open>
  The claim as written says that \<open>error\<close> is the only field written. A struct whose
  \<open>buf\<close> points to a block holds the null pointer there after the failed call.
\<close>

theorem array_init_failure_counterexample:
  "array_init False
     \<lparr>buf = Block [5 :: nat], capacity = 3, size_a = 2, min_capacity = 3, error = OK_ERROR\<rparr> 4
   = \<lparr>buf = NULL, capacity = 3, size_a = 2, min_capacity = 3, error = OUT_OF_MEM\<rparr>"
  by (simp add: array_init_def calloc_def Let_def)

section \<open>What an index out of bounds changes\<close>

text \<open>
  Claim C2, as the code has it. From a state whose \<open>error\<close> is \<open>OK_ERROR\<close>, a call of
  \<open>array_set\<close>, \<open>array_get\<close>, \<open>array_remove\<close> or \<open>array_remove_index\<close> that sets
  \<open>error\<close> to \<open>OUT_OF_BOUNDS\<close> changes nothing else: buffer, size, capacity and minimum
  capacity are as before (and \<open>array_get\<close> leaves the caller's variable alone). A call of
  \<open>array_add_index\<close>, with any argument expressions, that sets \<open>OUT_OF_BOUNDS\<close>
  leaves size and minimum capacity as
  before, and leaves capacity and buffer as before when the array was not full; when
  \<open>size\<close> equalled \<open>capacity\<close> the growth step has already run: \<open>capacity\<close> is doubled
  and \<open>buf\<close> is the reallocated block, in which every slot of the old block keeps its
  content.
\<close>

theorem out_of_bounds_effect:
  assumes "error a = OK_ERROR"
  shows "(\<forall>a'. array_set a index val = Some a' \<and> error a' = OUT_OF_BOUNDS
            \<longrightarrow> a' = a\<lparr>error := OUT_OF_BOUNDS\<rparr>)
       \<and> (\<forall>a' x. array_get a index ret_val = Some (a', x) \<and> error a' = OUT_OF_BOUNDS
            \<longrightarrow> a' = a\<lparr>error := OUT_OF_BOUNDS\<rparr> \<and> x = ret_val)
       \<and> (\<forall>a'. array_remove r a = Some a' \<and> error a' = OUT_OF_BOUNDS
            \<longrightarrow> a' = a\<lparr>error := OUT_OF_BOUNDS\<rparr>)
       \<and> (\<forall>a'. array_remove_index r a index = Some a' \<and> error a' = OUT_OF_BOUNDS
            \<longrightarrow> a' = a\<lparr>error := OUT_OF_BOUNDS\<rparr>)
       \<and> (\<forall>a'. array_add_index r a index_e val_e = Some a' \<and> error a' = OUT_OF_BOUNDS
            \<longrightarrow> a' = (if size_a a = capacity a
                        then a\<lparr>buf := realloc r (buf a) (capacity a * 2),
                               capacity := capacity a * 2, error := OUT_OF_BOUNDS\<rparr>
                        else a\<lparr>error := OUT_OF_BOUNDS\<rparr>)
              \<and> (\<forall>j < length (slots (buf a)). j < unat (capacity a')
                    \<longrightarrow> slots (buf a') ! j = slots (buf a) ! j))"
proof (intro conjI allI impI)
  fix a' assume "array_set a index val = Some a' \<and> error a' = OUT_OF_BOUNDS"
  with assms show "a' = a\<lparr>error := OUT_OF_BOUNDS\<rparr>"
    by (auto simp: array_set_def split: if_splits option.splits)
next
  fix a' x assume h: "array_get a index ret_val = Some (a', x) \<and> error a' = OUT_OF_BOUNDS"
  with assms show "a' = a\<lparr>error := OUT_OF_BOUNDS\<rparr>"
    by (auto simp: array_get_def split: if_splits option.splits)
  from h assms show "x = ret_val"
    by (auto simp: array_get_def split: if_splits option.splits)
next
  fix a' assume "array_remove r a = Some a' \<and> error a' = OUT_OF_BOUNDS"
  with assms error_remove_tail [OF assms, of r] show "a' = a\<lparr>error := OUT_OF_BOUNDS\<rparr>"
    by (auto simp: array_remove_def split: if_splits)
next
  fix a' assume h: "array_remove_index r a index = Some a' \<and> error a' = OUT_OF_BOUNDS"
  have "\<And>p. error (remove_tail r (a\<lparr>buf := p\<rparr>)) \<noteq> OUT_OF_BOUNDS"
    using assms by (simp add: error_remove_tail)
  with h assms show "a' = a\<lparr>error := OUT_OF_BOUNDS\<rparr>"
    by (auto simp: array_remove_index_def split: if_splits option.splits)
next
  fix a' assume h: "array_add_index r a index_e val_e = Some a' \<and> error a' = OUT_OF_BOUNDS"
  let ?a2 = "if size_a a = capacity a
             then a\<lparr>capacity := capacity a * 2, buf := realloc r (buf a) (capacity a * 2)\<rparr>
             else a"
  have inside: False
    if sh: "shift_right (?a2\<lparr>size_a := size_a ?a2 + 1\<rparr>) index_e (size_a ?a2) = Some a4"
      and res: "a' = a4\<lparr>buf := p\<rparr>" for a4 p
  proof -
    from shift_right_error [OF sh] assms have "error a4 = OK_ERROR"
      by (simp split: if_splits)
    with res h show False by simp
  qed
  from h assms have nn: "\<not> (size_a a = capacity a \<and> realloc r (buf a) (capacity a * 2) = NULL)"
    by (auto simp: array_add_index_cases)
  from h assms nn inside have a': "a' = ?a2\<lparr>error := OUT_OF_BOUNDS\<rparr>"
    by (simp add: array_add_index_cases Let_def split: if_splits option.splits) blast+
  then show eq: "a' = (if size_a a = capacity a
                        then a\<lparr>buf := realloc r (buf a) (capacity a * 2),
                               capacity := capacity a * 2, error := OUT_OF_BOUNDS\<rparr>
                        else a\<lparr>error := OUT_OF_BOUNDS\<rparr>)"
    by simp
  fix j assume j: "j < length (slots (buf a))" "j < unat (capacity a')"
  show "slots (buf a') ! j = slots (buf a) ! j"
  proof (cases "size_a a = capacity a")
    case False
    with eq show ?thesis by simp
  next
    case True
    with nn have "realloc r (buf a) (capacity a * 2) \<noteq> NULL"
      by simp
    then obtain b where b: "realloc r (buf a) (capacity a * 2) = Block b"
      by (cases "realloc r (buf a) (capacity a * 2)") auto
    from True eq b j have "b ! j = slots (buf a) ! j"
      by (intro realloc_keeps [OF b]) auto
    with True eq b show ?thesis by simp
  qed
qed

theorem out_of_bounds_effect_witness:
  "error full_pair = OK_ERROR
   \<and> array_set full_pair 5 9 = Some (full_pair\<lparr>error := OUT_OF_BOUNDS\<rparr>)
   \<and> array_get full_pair 5 1 = Some (full_pair\<lparr>error := OUT_OF_BOUNDS\<rparr>, 1)
   \<and> array_remove None empty_pair = Some (empty_pair\<lparr>error := OUT_OF_BOUNDS\<rparr>)
   \<and> array_remove_index None full_pair 5 = Some (full_pair\<lparr>error := OUT_OF_BOUNDS\<rparr>)
   \<and> array_add_index (Some (\<lambda>i. 0)) full_pair (\<lambda>_. 5) (\<lambda>_. 9)
       = Some \<lparr>buf = Block [4, 6, 0, 0], capacity = 4, size_a = 2, min_capacity = 2,
                error = OUT_OF_BOUNDS\<rparr>"
proof -
  have ok: "error full_pair = OK_ERROR"
    by (simp add: full_pair_def)
  have set: "array_set full_pair 5 9 = Some (full_pair\<lparr>error := OUT_OF_BOUNDS\<rparr>)"
    by (simp add: full_pair_def array_set_def word_less_nat_alt)
  have get: "array_get full_pair 5 1 = Some (full_pair\<lparr>error := OUT_OF_BOUNDS\<rparr>, 1)"
    by (simp add: full_pair_def array_get_def word_less_nat_alt)
  have rem: "array_remove None empty_pair = Some (empty_pair\<lparr>error := OUT_OF_BOUNDS\<rparr>)"
    by (simp add: empty_pair_def array_remove_def)
  have remi: "array_remove_index None full_pair 5 = Some (full_pair\<lparr>error := OUT_OF_BOUNDS\<rparr>)"
    by (simp add: full_pair_def array_remove_index_def word_less_nat_alt)
  have ins: "array_add_index (Some (\<lambda>i. 0)) full_pair (\<lambda>_. 5) (\<lambda>_. 9)
       = Some \<lparr>buf = Block [4, 6, 0, 0], capacity = 4, size_a = 2, min_capacity = 2,
                error = OUT_OF_BOUNDS\<rparr>"
    by (simp add: full_pair_def array_add_index_def realloc_grow max_slots_def Let_def
        upt_conv_Cons word_le_nat_alt)
  from out_of_bounds_effect [OF ok, where index = 5 and val = 9 and ret_val = 1
      and r = "Some (\<lambda>i. 0)" and index_e = "\<lambda>_. 5" and val_e = "\<lambda>_. 9"]
    ok set get rem remi ins
  show ?thesis by blast
qed

text \<open>
  The claim as written says that capacity and buffer are unchanged also for
  \<open>array_add_index\<close> with an index beyond \<open>size\<close> on a full array. On a full array of
  one element and the index 5, the call reports \<open>OUT_OF_BOUNDS\<close> with the capacity 2 and
  a block of two slots.
\<close>

theorem out_of_bounds_effect_counterexample:
  "array_add_index (Some (\<lambda>i. 0))
     \<lparr>buf = Block [7 :: nat], capacity = 1, size_a = 1, min_capacity = 1, error = OK_ERROR\<rparr>
     (\<lambda>_. 5) (\<lambda>_. 9)
   = Some \<lparr>buf = Block [7, 0], capacity = 2, size_a = 1, min_capacity = 1, error = OUT_OF_BOUNDS\<rparr>"
  by (simp add: array_add_index_def realloc_grow max_slots_def Let_def upt_conv_Cons
      word_le_nat_alt)

section \<open>Failure of the shrink reallocation\<close>

text \<open>
  Claim C9. From a state with \<open>error = OK_ERROR\<close> and \<open>size > 0\<close> in which the
  decremented size equals \<open>capacity / 2\<close> and \<open>capacity\<close> differs from \<open>min_capacity\<close>,
  a call of \<open>array_remove\<close> whose reallocation fails leaves \<open>error = OUT_OF_MEM\<close> and the
  decremented size (and the halved capacity, with the old buffer): the decrement is not
  undone. The same holds for \<open>array_remove_index\<close> at an index below \<open>size\<close>, when the
  block has at least \<open>size\<close> slots; its buffer is the old block after the shift.
\<close>

theorem shrink_failure_keeps_decrement:
  assumes "error a = OK_ERROR" and "0 < size_a a"
    and "size_a a - 1 = capacity a div 2" and "capacity a \<noteq> min_capacity a"
    and "realloc r (buf a) (capacity a div 2) = NULL"
  shows "array_remove r a
           = Some (a\<lparr>size_a := size_a a - 1, capacity := capacity a div 2, error := OUT_OF_MEM\<rparr>)
       \<and> (index < size_a a \<and> unat (size_a a) \<le> length (slots (buf a)) \<longrightarrow>
            (\<exists>p. shift_left (buf a) index (size_a a - 1) = Some p
               \<and> array_remove_index r a index
                   = Some (a\<lparr>buf := p, size_a := size_a a - 1, capacity := capacity a div 2,
                            error := OUT_OF_MEM\<rparr>)))"
proof (intro conjI impI)
  show "array_remove r a
           = Some (a\<lparr>size_a := size_a a - 1, capacity := capacity a div 2, error := OUT_OF_MEM\<rparr>)"
    using assms by (simp add: array_remove_def remove_tail_def Let_def)
next
  assume h: "index < size_a a \<and> unat (size_a a) \<le> length (slots (buf a))"
  from assms(2) have nz: "size_a a \<noteq> 0" by auto
  then have dec: "unat (size_a a - 1) = unat (size_a a) - 1"
    by (simp add: unat_minus_one)
  from nz have pos: "0 < unat (size_a a)" by (simp add: unat_gt_0)
  from h pos obtain b where b: "buf a = Block b"
    by (cases "buf a") auto
  from h dec pos b have "unat (size_a a - 1) < length b" by auto
  moreover from h dec have "index \<le> size_a a - 1"
    by (auto simp: word_le_nat_alt word_less_nat_alt)
  ultimately obtain b' where sl: "shift_left (Block b) index (size_a a - 1) = Some (Block b')"
    using shift_left_Some by blast
  from assms(5) have "realloc r (Block b') (capacity a div 2) = NULL"
    by (simp add: realloc_NULL_iff)
  with assms h sl b show "\<exists>p. shift_left (buf a) index (size_a a - 1) = Some p
               \<and> array_remove_index r a index
                   = Some (a\<lparr>buf := p, size_a := size_a a - 1, capacity := capacity a div 2,
                            error := OUT_OF_MEM\<rparr>)"
    by (simp add: array_remove_index_def remove_tail_def Let_def)
qed

theorem shrink_failure_keeps_decrement_witness:
  "error three_of_four = OK_ERROR \<and> 0 < size_a three_of_four
   \<and> size_a three_of_four - 1 = capacity three_of_four div 2
   \<and> capacity three_of_four \<noteq> min_capacity three_of_four
   \<and> realloc None (buf three_of_four) (capacity three_of_four div 2) = NULL
   \<and> array_remove None three_of_four
       = Some \<lparr>buf = Block [4, 6, 8, 0], capacity = 2, size_a = 2, min_capacity = 2,
                error = OUT_OF_MEM\<rparr>
   \<and> array_remove_index None three_of_four 0
       = Some \<lparr>buf = Block [6, 8, 8, 0], capacity = 2, size_a = 2, min_capacity = 2,
                error = OUT_OF_MEM\<rparr>"
  using shrink_failure_keeps_decrement [of three_of_four None 0]
  by (simp add: three_of_four_def realloc_def load_def store_def
      shift_left.simps [of _ 0 2] shift_left.simps [of _ 1 2] shift_left.simps [of _ 2 2])

section \<open>Word arithmetic and well-formed structs\<close>

lemma unat_double:
  fixes c :: "64 word"
  assumes "unat c \<le> max_slots"
  shows "unat (c * 2) = 2 * unat c"
proof -
  from assms have "unat c * unat (2 :: 64 word) < 2 ^ LENGTH(64)"
    by (simp add: max_slots_def)
  then have "unat (c * 2) = unat c * unat (2 :: 64 word)"
    by (simp only: unat_mult_lem [THEN iffD1])
  then show ?thesis by simp
qed

lemma unat_inc:
  fixes x :: "64 word"
  assumes "unat x \<le> max_slots"
  shows "unat (x + 1) = unat x + 1"
proof -
  from assms have "unat x + unat (1 :: 64 word) < 2 ^ LENGTH(64)"
    by (simp add: max_slots_def)
  then show ?thesis
    by (simp add: unat_add_lem [THEN iffD1])
qed

lemma unat_dec:
  fixes x :: "64 word"
  assumes "0 < x"
  shows "unat (x - 1) = unat x - 1"
  using assms by (simp add: unat_minus_one word_less_nat_alt unat_gt_0)

lemma unat_half:
  fixes c :: "64 word"
  shows "unat (c div 2) = unat c div 2"
  by (simp add: unat_div)






lemma remove_tail_fields:
  "size_a (remove_tail r a) = size_a a - 1"
  "min_capacity (remove_tail r a) = min_capacity a"
  "capacity (remove_tail r a)
     = (if size_a a - 1 = capacity a div 2 \<and> capacity a \<noteq> min_capacity a
        then capacity a div 2 else capacity a)"
  by (simp_all add: remove_tail_def Let_def)
















lemma exec_stuck: "error a \<noteq> OK_ERROR \<Longrightarrow> exec r a c = Some a"
  by (cases c)
    (simp_all add: array_add_def array_add_index_def array_set_def array_get_def
      array_remove_def array_remove_index_def)

lemma run_stuck: "error a \<noteq> OK_ERROR \<Longrightarrow> run a cs = Some a"
proof (induction cs)
  case Nil
  show ?case by simp
next
  case (Cons rc cs)
  then show ?case by (cases rc) (simp add: exec_stuck)
qed



section \<open>Granted reallocations and the error flag\<close>

text \<open>
  A call that starts without \<open>OUT_OF_MEM\<close> ends with \<open>OUT_OF_MEM\<close> exactly when the
  allocator refuses the reallocation the call asks for.
\<close>

lemma add_tail_error: "add_tail a v = Some a' \<Longrightarrow> error a' = error a"
  by (auto simp: add_tail_def split: option.splits)

lemma array_add_oom_iff:
  assumes "array_add r a v = Some a'" and "error a \<noteq> OUT_OF_MEM"
  shows "error a' = OUT_OF_MEM \<longleftrightarrow> \<not> granted r a (Array_add v)"
proof (cases "error a = OK_ERROR \<and> size_a a = capacity a")
  case False
  with assms have "error a' = error a"
    by (auto simp: array_add_def dest: add_tail_error split: if_splits)
  with False assms(2) show ?thesis
    by (auto simp: granted_def)
next
  case True
  show ?thesis
  proof (cases "realloc r (buf a) (capacity a * 2) = NULL")
    case True
    with \<open>error a = OK_ERROR \<and> size_a a = capacity a\<close> assms(1) show ?thesis
      by (auto simp: array_add_def granted_def Let_def)
  next
    case False
    with True assms(1) have "error a' = OK_ERROR"
      by (auto simp: array_add_def Let_def dest: add_tail_error)
    with True False show ?thesis
      by (simp add: granted_def)
  qed
qed

lemma array_add_index_oom_iff:
  assumes "array_add_index r a index val = Some a'" and "error a \<noteq> OUT_OF_MEM"
  shows "error a' = OUT_OF_MEM
           \<longleftrightarrow> error a = OK_ERROR \<and> size_a a = capacity a
               \<and> realloc r (buf a) (capacity a * 2) = NULL"
proof (cases "error a = OK_ERROR")
  case False
  with assms show ?thesis by (simp add: array_add_index_def)
next
  case ok: True
  show ?thesis
  proof (cases "size_a a = capacity a \<and> realloc r (buf a) (capacity a * 2) = NULL")
    case True
    with assms(1) ok show ?thesis
      by (auto simp: array_add_index_cases)
  next
    case False
    let ?a2 = "if size_a a = capacity a
               then a\<lparr>capacity := capacity a * 2, buf := realloc r (buf a) (capacity a * 2)\<rparr>
               else a"
    have ok2: "error ?a2 = OK_ERROR" using ok by simp
    have "error a' \<noteq> OUT_OF_MEM"
    proof (cases "index ?a2 \<le> size_a ?a2")
      case False
      with \<open>\<not> (size_a a = capacity a \<and> realloc r (buf a) (capacity a * 2) = NULL)\<close> assms(1) ok
      have "a' = ?a2\<lparr>error := OUT_OF_BOUNDS\<rparr>"
        by (simp add: array_add_index_cases Let_def split: if_splits)
      then show ?thesis by simp
    next
      case True
      with \<open>\<not> (size_a a = capacity a \<and> realloc r (buf a) (capacity a * 2) = NULL)\<close> assms(1) ok
      obtain a4 p where sh: "shift_right (?a2\<lparr>size_a := size_a ?a2 + 1\<rparr>) index (size_a ?a2) = Some a4"
        and res: "a' = a4\<lparr>buf := p\<rparr>"
        by (simp add: array_add_index_cases Let_def split: if_splits option.splits) blast+
      from shift_right_error [OF sh] ok2 have "error a4 = OK_ERROR"
        by simp
      with res show ?thesis by simp
    qed
    with False ok show ?thesis by simp
  qed
qed

lemma remove_tail_error:
  "error (remove_tail r a)
     = (if size_a a - 1 = capacity a div 2 \<and> capacity a \<noteq> min_capacity a
           \<and> realloc r (buf a) (capacity a div 2) = NULL
        then OUT_OF_MEM else error a)"
  by (simp add: remove_tail_def Let_def)

lemma exec_oom_iff:
  assumes "exec r a c = Some a'" and "error a \<noteq> OUT_OF_MEM"
  shows "error a' = OUT_OF_MEM \<longleftrightarrow> \<not> granted r a c"
proof (cases c)
  case (Array_add v)
  with array_add_oom_iff [of r a v a'] assms show ?thesis by simp
next
  case (Array_add_index i v)
  with array_add_index_oom_iff [of r a "\<lambda>_. i" "\<lambda>_. v" a'] assms show ?thesis
    by (auto simp: granted_def)
next
  case (Array_set i v)
  with assms show ?thesis
    by (auto simp: array_set_def granted_def split: if_splits option.splits)
next
  case (Array_get i x)
  with assms show ?thesis
    by (auto simp: array_get_def granted_def split: if_splits option.splits)
next
  case Array_remove
  with assms show ?thesis
    by (auto simp: array_remove_def granted_def remove_tail_error split: if_splits)
next
  case (Array_remove_index i)
  with assms show ?thesis
    by (auto simp: array_remove_index_def granted_def remove_tail_error realloc_NULL_iff
        split: if_splits option.splits)
qed

lemma run_granted:
  "all_granted a cs \<Longrightarrow> error a \<noteq> OUT_OF_MEM \<Longrightarrow> run a cs = Some a' \<Longrightarrow>
     error a' \<noteq> OUT_OF_MEM"
proof (induction cs arbitrary: a)
  case Nil
  then show ?case by simp
next
  case (Cons rc cs)
  obtain r c where rc: "rc = (r, c)" by (cases rc)
  from Cons.prems(3) rc obtain a1 where a1: "exec r a c = Some a1" and rest: "run a1 cs = Some a'"
    by (auto split: option.splits)
  from Cons.prems(1) rc a1 have g: "granted r a c" and gs: "all_granted a1 cs"
    by simp_all
  from exec_oom_iff [OF a1 Cons.prems(2)] g have "error a1 \<noteq> OUT_OF_MEM"
    by simp
  from Cons.IH [OF gs this rest] show ?case .
qed

lemma array_init_ok:
  "calloc ok init_capacity \<noteq> (NULL :: ('a::zero) ptr) \<Longrightarrow>
     error (array_init ok (a :: 'a array_struct) init_capacity) = OK_ERROR"
  by (simp add: array_init_def Let_def)

section \<open>The capacity invariant\<close>



section \<open>Appending and reading back\<close>

lemma add_tail_holds:
  assumes "holds a xs" and "length xs < unat (capacity a)"
  shows "\<exists>a'. add_tail a v = Some a' \<and> holds a' (xs @ [v])"
proof -
  from assms(1) obtain b where b: "buf a = Block b" "length b = unat (capacity a)"
    "take (length xs) b = xs" and sz: "unat (size_a a) = length xs"
    and rest: "error a = OK_ERROR" "unat (capacity a) \<le> max_slots"
    by (auto simp: holds_def)
  from sz assms(2) rest have inc: "unat (size_a a + 1) = length xs + 1"
    by (simp add: unat_inc)
  from b sz assms(2) have st: "store (buf a) (size_a a) v = Some (Block (b[length xs := v]))"
    by (simp add: store_def)
  have "take (Suc (length xs)) (b[length xs := v]) = xs @ [v]"
    using b assms(2) by (simp add: take_Suc_conv_app_nth)
  with st inc b rest assms(2) show ?thesis
    by (simp add: add_tail_def holds_def)
qed

lemma array_add_holds:
  assumes "holds a xs"
  shows "\<exists>a'. array_add r a v = Some a' \<and> (error a' = OUT_OF_MEM \<or> holds a' (xs @ [v]))"
proof (cases "size_a a = capacity a")
  case False
  with assms have "length xs < unat (capacity a)"
    by (auto simp: holds_def word_unat_eq_iff)
  from add_tail_holds [OF assms this, of v] False assms show ?thesis
    by (auto simp: array_add_def holds_def)
next
  case True
  from assms obtain b where b: "buf a = Block b" "length b = unat (capacity a)"
    "take (length xs) b = xs" and sz: "unat (size_a a) = length xs"
    and rest: "error a = OK_ERROR" "unat (capacity a) \<le> max_slots" "0 < unat (capacity a)"
    by (auto simp: holds_def)
  have dbl: "unat (capacity a * 2) = 2 * unat (capacity a)"
    using rest by (simp add: unat_double)
  show ?thesis
  proof (cases "realloc r (buf a) (capacity a * 2) = NULL")
    case True
    with \<open>size_a a = capacity a\<close> rest show ?thesis
      by (simp add: array_add_def Let_def)
  next
    case False
    then obtain junk where r: "r = Some junk" and fit: "unat (capacity a * 2) \<le> max_slots"
      by (auto simp: realloc_NULL_iff)
    have grow: "realloc r (buf a) (capacity a * 2)
                  = Block (b @ map junk [length b..<unat (capacity a * 2)])"
      unfolding r using b dbl fit by (simp add: realloc_grow)
    let ?a2 = "a\<lparr>capacity := capacity a * 2,
                  buf := Block (b @ map junk [length b..<unat (capacity a * 2)])\<rparr>"
    have h2: "holds ?a2 xs"
      using b sz rest dbl fit True by (simp add: holds_def)
    have "length xs < unat (capacity ?a2)"
      using True sz rest dbl by simp
    from add_tail_holds [OF h2 this, of v]
    obtain a' where "add_tail ?a2 v = Some a'" "holds a' (xs @ [v])"
      by (elim exE conjE)
    with True rest grow False show ?thesis
      by (simp add: array_add_def Let_def)
  qed
qed

lemma run_adds_holds:
  "holds a xs \<Longrightarrow>
     \<exists>a'. run a (map (\<lambda>(r, v). (r, Array_add v)) ps) = Some a'
        \<and> (error a' = OUT_OF_MEM \<or> holds a' (xs @ map snd ps))"
proof (induction ps arbitrary: a xs)
  case Nil
  then show ?case by simp
next
  case (Cons p ps)
  obtain r v where p: "p = (r, v)" by (cases p)
  from array_add_holds [OF Cons.prems, of r v]
  obtain a1 where a1: "array_add r a v = Some a1"
    and alt: "error a1 = OUT_OF_MEM \<or> holds a1 (xs @ [v])"
    by blast
  from alt show ?case
  proof
    assume "error a1 = OUT_OF_MEM"
    then have "run a1 (map (\<lambda>(r, v). (r, Array_add v)) ps) = Some a1"
      by (simp add: run_stuck)
    with a1 p \<open>error a1 = OUT_OF_MEM\<close> show ?thesis by simp
  next
    assume "holds a1 (xs @ [v])"
    from Cons.IH [OF this] a1 p show ?thesis by simp
  qed
qed

lemma array_get_holds:
  assumes "holds a xs" and "i < length xs"
  shows "array_get a (of_nat i) ret_val = Some (a, xs ! i)"
proof -
  from assms(1) obtain b where b: "buf a = Block b" "length b = unat (capacity a)"
    "take (length xs) b = xs" and sz: "unat (size_a a) = length xs"
    and rest: "error a = OK_ERROR" "length xs \<le> unat (capacity a)"
    by (auto simp: holds_def)
  have "unat (size_a a) < 2 ^ LENGTH(64)" by (rule unsigned_less)
  with sz assms(2) have i: "unat (of_nat i :: 64 word) = i"
    by (simp add: unat_of_nat)
  have "xs ! i = take (length xs) b ! i" using b by simp
  also have "\<dots> = b ! i" using assms(2) by simp
  finally have "b ! i = xs ! i" by simp
  with i b sz rest assms(2) show ?thesis
    by (simp add: array_get_def load_def word_less_nat_alt)
qed

lemma array_init_holds:
  assumes "1 \<le> init_capacity" and "error (array_init ok a init_capacity) = OK_ERROR"
  shows "holds (array_init ok a init_capacity) []"
proof -
  from assms(2) have "calloc ok init_capacity \<noteq> (NULL :: 'a ptr)"
    by (auto simp: array_init_def Let_def split: if_splits)
  then have c: "calloc ok init_capacity = (Block (replicate (unat init_capacity) 0) :: 'a ptr)"
    and fit: "unat init_capacity \<le> max_slots"
    by (auto simp: calloc_def split: if_splits)
  from assms(1) have "0 < unat init_capacity"
    by (simp add: word_le_nat_alt)
  with c fit show ?thesis
    by (simp add: array_init_def holds_def Let_def)
qed

text \<open>
  Claim C4. After an \<open>array_init\<close> with \<open>init_capacity \<ge> 1\<close> whose allocation succeeds,
  append the values of any list with \<open>array_add\<close>, the allocator granting every
  reallocation that a call asks for. The calls run to the end; afterwards \<open>array_size\<close>
  returns the number of values, \<open>array_error\<close> returns \<open>OK_ERROR\<close>, and \<open>array_get\<close> at
  every index \<open>i\<close> below that number returns the \<open>i\<close>-th value and leaves the struct as
  it is.
\<close>

theorem append_get_roundtrip:
  assumes "1 \<le> init_capacity" and "calloc ok init_capacity \<noteq> (NULL :: ('a::zero) ptr)"
    and "all_granted (array_init ok (a :: 'a array_struct) init_capacity)
           (map (\<lambda>(r, v). (r, Array_add v)) ps)"
  shows "\<exists>a'. run (array_init ok a init_capacity) (map (\<lambda>(r, v). (r, Array_add v)) ps) = Some a'
           \<and> unat (array_size a') = length ps \<and> array_error a' = OK_ERROR
           \<and> (\<forall>i < length ps. array_get a' (of_nat i) ret_val = Some (a', snd (ps ! i)))"
proof -
  note ok = array_init_ok [OF assms(2), of a]
  from run_adds_holds [OF array_init_holds [OF assms(1) ok], of ps]
  obtain a' where run: "run (array_init ok a init_capacity) (map (\<lambda>(r, v). (r, Array_add v)) ps) = Some a'"
    and alt: "error a' = OUT_OF_MEM \<or> holds a' (map snd ps)"
    by auto
  from ok have "error (array_init ok a init_capacity) \<noteq> OUT_OF_MEM" by simp
  from run_granted [OF assms(3) this run] alt have h: "holds a' (map snd ps)"
    by simp
  then have "unat (array_size a') = length ps" "array_error a' = OK_ERROR"
    by (simp_all add: holds_def array_size_def array_error_def)
  moreover have "array_get a' (of_nat i) ret_val = Some (a', snd (ps ! i))" if "i < length ps" for i
    using array_get_holds [OF h, of i ret_val] that by simp
  ultimately show ?thesis using run by blast
qed

theorem append_get_roundtrip_witness:
  "(1 :: 64 word) \<le> 1 \<and> calloc True 1 \<noteq> (NULL :: nat ptr)
   \<and> all_granted (array_init True full_pair 1)
        (map (\<lambda>(r, v). (r, Array_add v)) [(None, 10), (Some (\<lambda>i. 0), 20), (Some (\<lambda>i. 0), 30)])
   \<and> run (array_init True full_pair 1)
        (map (\<lambda>(r, v). (r, Array_add v)) [(None, 10), (Some (\<lambda>i. 0), 20), (Some (\<lambda>i. 0), 30)])
       = Some \<lparr>buf = Block [10, 20, 30, 0], capacity = 4, size_a = 3, min_capacity = 1,
                error = OK_ERROR\<rparr>
   \<and> array_get \<lparr>buf = Block [10 :: nat, 20, 30, 0], capacity = 4, size_a = 3,
                  min_capacity = 1, error = OK_ERROR\<rparr> (of_nat 1) 0
       = Some (\<lparr>buf = Block [10, 20, 30, 0], capacity = 4, size_a = 3, min_capacity = 1,
                error = OK_ERROR\<rparr>, 20)"
proof -
  have one: "(1 :: 64 word) \<le> 1" by simp
  have ok: "calloc True 1 \<noteq> (NULL :: nat ptr)"
    by (simp add: calloc_def max_slots_def)
  have gr: "all_granted (array_init True full_pair 1)
        (map (\<lambda>(r, v). (r, Array_add v)) [(None, 10), (Some (\<lambda>i. 0), 20), (Some (\<lambda>i. 0), 30)])"
    by (simp add: granted_def eval_simps) (simp add: eval_nat_numeral)?
  have run: "run (array_init True full_pair 1)
        (map (\<lambda>(r, v). (r, Array_add v)) [(None, 10), (Some (\<lambda>i. 0), 20), (Some (\<lambda>i. 0), 30)])
       = Some \<lparr>buf = Block [10, 20, 30, 0], capacity = 4, size_a = 3, min_capacity = 1,
                error = OK_ERROR\<rparr>"
    by (simp add: eval_simps) (simp add: eval_nat_numeral)?
  from append_get_roundtrip [OF one ok gr, of 0]
  have "\<forall>i<3. array_get \<lparr>buf = Block [10 :: nat, 20, 30, 0], capacity = 4, size_a = 3,
                  min_capacity = 1, error = OK_ERROR\<rparr> (of_nat i) 0
       = Some (\<lparr>buf = Block [10, 20, 30, 0], capacity = 4, size_a = 3, min_capacity = 1,
                error = OK_ERROR\<rparr>,
               snd ([(None :: (nat \<Rightarrow> nat) option, 10), (Some (\<lambda>i. 0), 20), (Some (\<lambda>i. 0), 30)] ! i))"
    unfolding run by simp
  then have "array_get \<lparr>buf = Block [10 :: nat, 20, 30, 0], capacity = 4, size_a = 3,
                  min_capacity = 1, error = OK_ERROR\<rparr> (of_nat 1) 0
       = Some (\<lparr>buf = Block [10, 20, 30, 0], capacity = 4, size_a = 3, min_capacity = 1,
                error = OK_ERROR\<rparr>,
               snd ([(None :: (nat \<Rightarrow> nat) option, 10), (Some (\<lambda>i. 0), 20), (Some (\<lambda>i. 0), 30)] ! 1))"
    by (elim allE [of _ 1]) simp
  with one ok gr run show ?thesis by simp
qed

section \<open>Growth from capacity 1\<close>

text \<open>
  Claim C6. After a successful \<open>array_init\<close> with \<open>init_capacity = 1\<close>, five calls of
  \<open>array_add\<close> whose reallocations succeed leave, one after the other, the sizes 1, 2, 3,
  4, 5 with the capacities 1, 2, 4, 4, 8: the capacity doubles in the second, third and fifth
  call, exactly those that find \<open>size = capacity\<close>. The error flag is \<open>OK_ERROR\<close>
  throughout, and at the end the size is 5 and the capacity 8. The slots beyond the size hold
  what the allocator left there.
\<close>

theorem growth_one_to_eight:
  fixes v1 v2 v3 v4 v5 :: "'a::zero"
  shows "array_init True a 1
           = \<lparr>buf = Block [0], capacity = 1, size_a = 0, min_capacity = 1, error = OK_ERROR\<rparr>
       \<and> run (array_init True a 1) [(Some j1, Array_add v1)]
           = Some \<lparr>buf = Block [v1], capacity = 1, size_a = 1, min_capacity = 1,
                    error = OK_ERROR\<rparr>
       \<and> run (array_init True a 1) [(Some j1, Array_add v1), (Some j2, Array_add v2)]
           = Some \<lparr>buf = Block [v1, v2], capacity = 2, size_a = 2, min_capacity = 1,
                    error = OK_ERROR\<rparr>
       \<and> run (array_init True a 1)
            [(Some j1, Array_add v1), (Some j2, Array_add v2), (Some j3, Array_add v3)]
           = Some \<lparr>buf = Block [v1, v2, v3, j3 3], capacity = 4, size_a = 3, min_capacity = 1,
                    error = OK_ERROR\<rparr>
       \<and> run (array_init True a 1)
            [(Some j1, Array_add v1), (Some j2, Array_add v2), (Some j3, Array_add v3),
             (Some j4, Array_add v4)]
           = Some \<lparr>buf = Block [v1, v2, v3, v4], capacity = 4, size_a = 4, min_capacity = 1,
                    error = OK_ERROR\<rparr>
       \<and> run (array_init True a 1)
            [(Some j1, Array_add v1), (Some j2, Array_add v2), (Some j3, Array_add v3),
             (Some j4, Array_add v4), (Some j5, Array_add v5)]
           = Some \<lparr>buf = Block [v1, v2, v3, v4, v5, j5 5, j5 6, j5 7], capacity = 8,
                    size_a = 5, min_capacity = 1, error = OK_ERROR\<rparr>"
  by (simp add: eval_simps) (simp add: eval_nat_numeral)?

theorem growth_one_to_eight_witness:
  "run (array_init True full_pair 1)
     [(Some (\<lambda>i. 0), Array_add 10), (Some (\<lambda>i. 0), Array_add 20),
      (Some (\<lambda>i. 0), Array_add 30), (Some (\<lambda>i. 0), Array_add 40),
      (Some (\<lambda>i. 0), Array_add 50)]
   = Some \<lparr>buf = Block [10, 20, 30, 40, 50, 0, 0, 0], capacity = 8, size_a = 5,
            min_capacity = 1, error = OK_ERROR\<rparr>"
  using growth_one_to_eight [of full_pair "\<lambda>i. 0" 10 "\<lambda>i. 0" 20 "\<lambda>i. 0" 30 "\<lambda>i. 0" 40
      "\<lambda>i. 0" 50]
  by (elim conjE)

section \<open>Shrinking by removal from the tail\<close>

lemma half_fits: "unat ((c :: 64 word) div 2) \<le> max_slots"
proof -
  have "unat c < 2 ^ LENGTH(64)" by (rule unsigned_less)
  then show ?thesis by (simp add: unat_half max_slots_def)
qed

lemma array_remove_tight:
  assumes "tight a" and "0 < size_a a" and "r \<noteq> None"
  shows "\<exists>a'. array_remove r a = Some a' \<and> tight a' \<and> size_a a' = size_a a - 1
           \<and> capacity a' = (if size_a a - 1 = capacity a div 2 \<and> capacity a \<noteq> min_capacity a
                             then capacity a div 2 else capacity a)
           \<and> min_capacity a' \<le> capacity a'"
proof -
  from assms(1) obtain j where j: "unat (capacity a) = 2 ^ j"
    and ok: "error a = OK_ERROR" and mn: "min_capacity a = 1"
    and le: "unat (size_a a) \<le> unat (capacity a)"
    and tg: "capacity a = 1 \<or> unat (capacity a) div 2 < unat (size_a a)"
    by (auto simp: tight_def)
  from assms(2) have dec: "unat (size_a a - 1) = unat (size_a a) - 1"
    by (rule unat_dec)
  from assms(2) have pos: "0 < unat (size_a a)"
    by (simp add: word_less_nat_alt)
  from assms(3) have nn: "realloc r (buf a) (capacity a div 2) \<noteq> NULL"
    by (simp add: realloc_NULL_iff not_less half_fits)
  have res: "array_remove r a = Some (remove_tail r a)"
    using ok assms(2) by (simp add: array_remove_def)
  have err: "error (remove_tail r a) = OK_ERROR"
    using ok nn by (simp add: remove_tail_def Let_def)
  have one: "unat (1 :: 64 word) \<le> unat (capacity (remove_tail r a))
             \<and> (\<exists>j. unat (capacity (remove_tail r a)) = 2 ^ j)
             \<and> unat (size_a a - 1) \<le> unat (capacity (remove_tail r a))
             \<and> (capacity (remove_tail r a) = 1
                  \<or> unat (capacity (remove_tail r a)) div 2 < unat (size_a a - 1))"
  proof (cases "size_a a - 1 = capacity a div 2 \<and> capacity a \<noteq> min_capacity a")
    case True
    then have c: "capacity (remove_tail r a) = capacity a div 2"
      by (simp add: remove_tail_fields)
    from True mn have "unat (capacity a) \<noteq> 1"
      by (auto simp: word_unat_eq_iff)
    with j obtain j' where j': "j = Suc j'" by (cases j) auto
    with j have half: "unat (capacity a div 2) = 2 ^ j'"
      by (simp add: unat_half)
    then have "\<exists>j. unat (capacity a div 2) = 2 ^ j" ..
    moreover from True have "unat (size_a a - 1) = unat (capacity a div 2)" by simp
    moreover from half have "0 < unat (capacity a div 2)" by simp
    ultimately show ?thesis
      unfolding c by auto
  next
    case False
    then have c: "capacity (remove_tail r a) = capacity a"
      by (simp only: remove_tail_fields if_False)
    from j have ex: "\<exists>j. unat (capacity a) = 2 ^ j" ..
    from j have cpos: "0 < unat (capacity a)" by simp
    from tg have "capacity a = 1 \<or> unat (capacity a) div 2 < unat (size_a a - 1)"
    proof
      assume "capacity a = 1"
      then show ?thesis ..
    next
      assume lt: "unat (capacity a) div 2 < unat (size_a a)"
      show ?thesis
      proof (cases "capacity a = 1")
        case True
        then show ?thesis ..
      next
        case ne: False
        with False mn have "size_a a - 1 \<noteq> capacity a div 2" by simp
        then have "unat (size_a a - 1) \<noteq> unat (capacity a div 2)"
          by (simp add: word_unat_eq_iff)
        with lt dec have "unat (capacity a) div 2 < unat (size_a a - 1)"
          by (simp add: unat_half)
        then show ?thesis ..
      qed
    qed
    with ex cpos le dec show ?thesis
      unfolding c by auto
  qed
  from one err mn have "tight (remove_tail r a)"
    by (simp add: tight_def remove_tail_fields)
  moreover from one mn have "min_capacity (remove_tail r a) \<le> capacity (remove_tail r a)"
    by (simp add: remove_tail_fields word_le_nat_alt)
  ultimately show ?thesis
    using res by (simp add: remove_tail_fields)
qed

lemma run_remove_tight:
  "tight a \<Longrightarrow> \<forall>r \<in> set rs. r \<noteq> None \<Longrightarrow> length rs \<le> unat (size_a a) \<Longrightarrow>
     \<exists>a'. run a (map (\<lambda>r. (r, Array_remove)) rs) = Some a' \<and> tight a'
        \<and> unat (size_a a') = unat (size_a a) - length rs"
proof (induction rs arbitrary: a)
  case Nil
  then show ?case by simp
next
  case (Cons r rs)
  from Cons.prems(3) have pos: "0 < size_a a"
    by (simp add: word_less_nat_alt)
  from Cons.prems(2) have r: "r \<noteq> None" by simp
  from array_remove_tight [OF Cons.prems(1) pos r]
  obtain a1 where a1: "array_remove r a = Some a1" "tight a1" "size_a a1 = size_a a - 1"
    by blast
  from pos a1(3) have sz: "unat (size_a a1) = unat (size_a a) - 1"
    by (simp add: unat_dec)
  with Cons.prems(3) have "length rs \<le> unat (size_a a1)" by simp
  moreover from Cons.prems(2) have "\<forall>r \<in> set rs. r \<noteq> None" by simp
  ultimately obtain a' where "run a1 (map (\<lambda>r. (r, Array_remove)) rs) = Some a'" "tight a'"
    "unat (size_a a') = unat (size_a a1) - length rs"
    using Cons.IH [OF a1(2)] by blast
  with a1(1) sz show ?case by simp
qed

text \<open>
  Claim C7. Take a usable array with minimum capacity 1 that is full at a capacity \<open>2^k\<close>,
  and call \<open>array_remove\<close> any number of times up to \<open>2^k\<close>, every reallocation being
  granted. The calls run to the end in a state \<open>s\<close> with \<open>error = OK_ERROR\<close> whose size
  is \<open>2^k\<close> minus the number of calls and whose capacity is not below the minimum capacity;
  the capacity is the power of two with more than half of it in use (or 1). From every such
  state one more call, if the array is not empty, decrements the size and halves the capacity
  exactly when the decremented size equals \<open>capacity / 2\<close> and \<open>capacity\<close> differs from
  \<open>min_capacity\<close>, leaving it unchanged otherwise, and again not below the minimum.
\<close>

theorem remove_halving:
  assumes "error a = OK_ERROR" and "min_capacity a = 1" and "unat (capacity a) = 2 ^ k"
    and "size_a a = capacity a" and "\<forall>r \<in> set rs. r \<noteq> None" and "length rs \<le> 2 ^ k"
  shows "\<exists>s. run a (map (\<lambda>r. (r, Array_remove)) rs) = Some s
           \<and> error s = OK_ERROR \<and> unat (size_a s) = 2 ^ k - length rs
           \<and> min_capacity s \<le> capacity s
           \<and> (\<exists>j. unat (capacity s) = 2 ^ j)
           \<and> (capacity s = 1 \<or> unat (capacity s) div 2 < unat (size_a s))
           \<and> (\<forall>r. r \<noteq> None \<and> 0 < size_a s \<longrightarrow>
                 (\<exists>s'. array_remove r s = Some s' \<and> error s' = OK_ERROR
                    \<and> size_a s' = size_a s - 1
                    \<and> capacity s' = (if size_a s - 1 = capacity s div 2
                                          \<and> capacity s \<noteq> min_capacity s
                                       then capacity s div 2 else capacity s)
                    \<and> min_capacity s' \<le> capacity s'))"
proof -
  have "unat (capacity a) div 2 < unat (capacity a)"
    unfolding assms(3) by simp
  with assms(1-4) have t: "tight a"
    by (auto simp: tight_def)
  from assms(3,4,6) have "length rs \<le> unat (size_a a)" by simp
  from run_remove_tight [OF t assms(5) this] assms(3,4)
  obtain s where run: "run a (map (\<lambda>r. (r, Array_remove)) rs) = Some s" and ts: "tight s"
    and sz: "unat (size_a s) = 2 ^ k - length rs"
    by auto
  from ts have "unat (min_capacity s) \<le> unat (capacity s)"
    by (auto simp: tight_def)
  then have mc: "min_capacity s \<le> capacity s"
    by (simp add: word_le_nat_alt)
  have step: "\<exists>s'. array_remove r s = Some s' \<and> error s' = OK_ERROR
                    \<and> size_a s' = size_a s - 1
                    \<and> capacity s' = (if size_a s - 1 = capacity s div 2
                                          \<and> capacity s \<noteq> min_capacity s
                                       then capacity s div 2 else capacity s)
                    \<and> min_capacity s' \<le> capacity s'"
    if "r \<noteq> None \<and> 0 < size_a s" for r
  proof -
    from that have "0 < size_a s" "r \<noteq> None" by simp_all
    from array_remove_tight [OF ts this] show ?thesis
      by (auto simp: tight_def)
  qed
  from ts run sz mc step show ?thesis
    unfolding tight_def by blast
qed

theorem remove_halving_witness:
  "error full_four = OK_ERROR \<and> min_capacity full_four = 1 \<and> unat (capacity full_four) = 2 ^ 2
   \<and> size_a full_four = capacity full_four
   \<and> run full_four [(Some (\<lambda>i. 0), Array_remove), (Some (\<lambda>i. 0), Array_remove)]
       = Some \<lparr>buf = Block [1, 2], capacity = 2, size_a = 2, min_capacity = 1,
                error = OK_ERROR\<rparr>
   \<and> array_remove (Some (\<lambda>i. 0))
        \<lparr>buf = Block [1 :: nat, 2], capacity = 2, size_a = 2, min_capacity = 1,
          error = OK_ERROR\<rparr>
       = Some \<lparr>buf = Block [1], capacity = 1, size_a = 1, min_capacity = 1,
                error = OK_ERROR\<rparr>"
proof -
  have h: "error full_four = OK_ERROR" "min_capacity full_four = 1"
    "unat (capacity full_four) = 2 ^ 2" "size_a full_four = capacity full_four"
    by (simp_all add: full_four_def)
  have rs: "\<forall>r \<in> set [Some (\<lambda>i :: nat. 0 :: nat), Some (\<lambda>i. 0)]. r \<noteq> None"
    "length [Some (\<lambda>i :: nat. 0 :: nat), Some (\<lambda>i. 0)] \<le> 2 ^ 2"
    by simp_all
  have run: "run full_four [(Some (\<lambda>i. 0), Array_remove), (Some (\<lambda>i. 0), Array_remove)]
       = Some \<lparr>buf = Block [1, 2], capacity = 2, size_a = 2, min_capacity = 1,
                error = OK_ERROR\<rparr>"
    by (simp add: full_four_def eval_simps) (simp add: eval_nat_numeral)?
  have nxt: "array_remove (Some (\<lambda>i. 0))
        \<lparr>buf = Block [1 :: nat, 2], capacity = 2, size_a = 2, min_capacity = 1,
          error = OK_ERROR\<rparr>
       = Some \<lparr>buf = Block [1], capacity = 1, size_a = 1, min_capacity = 1,
                error = OK_ERROR\<rparr>"
    by (simp add: eval_simps) (simp add: eval_nat_numeral)?
  from remove_halving [OF h rs] h run nxt show ?thesis
    by simp
qed

end
